theory Spec2Isabelle
  imports Complex_Main "HOL-Library.Sublist" "HOL-Library.Log_Nat"
begin

section \<open>Text: characters, case mapping, substrings\<close>


definition lower_letters :: string where
  "lower_letters = ''abcdefghijklmnopqrstuvwxyz''"

definition upper_letters :: string where
  "upper_letters = ''ABCDEFGHIJKLMNOPQRSTUVWXYZ''"

definition digits :: string where
  "digits = ''0123456789''"

definition upper_chr :: "char \<Rightarrow> char" where
  "upper_chr c = (case map_of (zip lower_letters upper_letters) c of Some u \<Rightarrow> u | None \<Rightarrow> c)"

definition lower_chr :: "char \<Rightarrow> char" where
  "lower_chr c = (case map_of (zip upper_letters lower_letters) c of Some l \<Rightarrow> l | None \<Rightarrow> c)"

definition upper :: "string \<Rightarrow> string" where
  "upper s = map upper_chr s"

definition lower :: "string \<Rightarrow> string" where
  "lower s = map lower_chr s"

text \<open>The classes \<open>\d\<close>, \<open>\w\<close> and \<open>\s\<close> on ASCII characters. \<open>\s\<close> and \<open>str.strip\<close>
  take the separators 0x1C to 0x1F for whitespace, as \<open>str.isspace\<close> does.\<close>

definition is_digit :: "char \<Rightarrow> bool" where
  "is_digit c = (c \<in> set digits)"

definition is_word :: "char \<Rightarrow> bool" where
  "is_word c = (c \<in> set (lower_letters @ upper_letters @ digits @ ''_''))"

definition is_space :: "char \<Rightarrow> bool" where
  "is_space c = (c \<in> set [CHR '' '', CHR 0x09, CHR 0x0A, CHR 0x0B, CHR 0x0C, CHR 0x0D,
                            CHR 0x1C, CHR 0x1D, CHR 0x1E, CHR 0x1F])"

text \<open>Python's \<open>n in txt\<close> on strings: \<open>n\<close> occurs as a contiguous block of \<open>txt\<close>.\<close>

fun str_in :: "string \<Rightarrow> string \<Rightarrow> bool" where
  "str_in n [] = (n = [])"
| "str_in n (c # cs) = (prefix n (c # cs) \<or> str_in n cs)"

section \<open>Regular expressions as used by the parsers\<close>

text \<open>
  The patterns of \<open>utils.py\<close> are built from literals, the classes \<open>\d\<close>, \<open>\s\<close> and
  bracket sets, \<open>\b\<close>, sequencing, alternation, \<open>?\<close>, and \<open>*\<close>/\<open>+\<close> applied to a single
  class. \<open>ends\<close> lists the positions at which a match of the pattern starting at
  position \<open>i\<close> can end, in the order in which Python's backtracking matcher tries them
  (greedy repetition first, left alternative first). The flag is \<open>re.I\<close>.
\<close>

datatype cls = Digit | Space | OneOf string

datatype rx =
    Lit string
  | In cls
  | Many cls
  | Many1 cls
  | Bnd
  | Cat rx rx
  | Alt rx rx
  | Opt rx

fun in_cls :: "cls \<Rightarrow> char \<Rightarrow> bool" where
  "in_cls Digit c = is_digit c"
| "in_cls Space c = is_space c"
| "in_cls (OneOf cs) c = (c \<in> set cs)"

definition chr_eq :: "bool \<Rightarrow> char \<Rightarrow> char \<Rightarrow> bool" where
  "chr_eq ic a b = (if ic then lower_chr a = lower_chr b else a = b)"

definition word_at :: "string \<Rightarrow> nat \<Rightarrow> bool" where
  "word_at s i = (i < length s \<and> is_word (s ! i))"

definition boundary :: "string \<Rightarrow> nat \<Rightarrow> bool" where
  "boundary s i = ((0 < i \<and> word_at s (i - 1)) \<noteq> word_at s i)"

definition run :: "cls \<Rightarrow> string \<Rightarrow> nat \<Rightarrow> nat" where
  "run k s i = length (takeWhile (in_cls k) (drop i s))"

fun ends :: "bool \<Rightarrow> rx \<Rightarrow> string \<Rightarrow> nat \<Rightarrow> nat list" where
  "ends ic (Lit w) s i =
     (if length w \<le> length s - i \<and> list_all2 (chr_eq ic) w (take (length w) (drop i s))
      then [i + length w] else [])"
| "ends ic (In k) s i = (if i < length s \<and> in_cls k (s ! i) then [i + 1] else [])"
| "ends ic (Many k) s i = rev [i ..< i + run k s i + 1]"
| "ends ic (Many1 k) s i = rev [i + 1 ..< i + run k s i + 1]"
| "ends ic Bnd s i = (if boundary s i then [i] else [])"
| "ends ic (Cat a b) s i = concat (map (ends ic b s) (ends ic a s i))"
| "ends ic (Alt a b) s i = ends ic a s i @ ends ic b s i"
| "ends ic (Opt a) s i = ends ic a s i @ [i]"

text \<open>\<open>re.search\<close>: the leftmost start position at which the pattern matches.\<close>

definition search :: "bool \<Rightarrow> rx \<Rightarrow> string \<Rightarrow> bool" where
  "search ic r s = list_ex (\<lambda>i. ends ic r s i \<noteq> []) [0 ..< length s + 1]"

text \<open>
  \<open>re.search\<close> of a pattern \<open>(g)rest\<close> followed by \<open>m.group(1)\<close>: at the leftmost start
  position with a match, the first end of \<open>g\<close> (in backtracking order) from which \<open>rest\<close>
  matches delimits the group.
\<close>

definition group_at :: "bool \<Rightarrow> rx \<Rightarrow> rx \<Rightarrow> string \<Rightarrow> nat \<Rightarrow> string option" where
  "group_at ic g rest s i =
     (case filter (\<lambda>e. ends ic rest s e \<noteq> []) (ends ic g s i) of
        [] \<Rightarrow> None
      | e # _ \<Rightarrow> Some (take (e - i) (drop i s)))"

definition search_group :: "bool \<Rightarrow> rx \<Rightarrow> rx \<Rightarrow> string \<Rightarrow> string option" where
  "search_group ic g rest s =
     (case List.map_filter (group_at ic g rest s) [0 ..< length s + 1] of
        [] \<Rightarrow> None
      | x # _ \<Rightarrow> Some x)"

section \<open>Dangerous-goods detector (\<open>utils.detect_dangerous\<close>)\<close>

definition negatives :: "string list" where
  "negatives = [''non-hazardous'', ''non hazardous'', ''non-dg'', ''not dangerous'', ''non dg'']"

definition keywords_rx :: "rx list" where
  "keywords_rx = [Lit ''dg'', Lit ''dangerous'', Lit ''hazardous'',
               Cat (Lit ''class '') (In Digit), Lit ''imo'', Lit ''imdg'']"

text \<open>The argument is \<open>None\<close> for an absent text (Python \<open>None\<close>); \<open>not text\<close> holds for
  \<open>None\<close> and for the empty string.\<close>

definition detect_dangerous :: "string option \<Rightarrow> bool" where
  "detect_dangerous text =
     (case text of
        None \<Rightarrow> False
      | Some t \<Rightarrow>
          if t = [] then False
          else let txt = lower t in
            if list_ex (\<lambda>n. str_in n txt) negatives then False
            else if list_ex (\<lambda>k. search False k txt) keywords_rx then True
            else False)"

section \<open>Business rule (\<open>utils.choose_product_line\<close>)\<close>

definition startswith :: "string \<Rightarrow> string \<Rightarrow> bool" where
  "startswith s p = prefix p s"

definition choose_product_line :: "string option \<Rightarrow> string option \<Rightarrow> string option" where
  "choose_product_line origin_code dest_code =
     (if (case dest_code of None \<Rightarrow> False | Some d \<Rightarrow> d \<noteq> [] \<and> startswith (upper d) ''IN'')
      then Some ''pl_sea_import_lcl''
      else if (case origin_code of None \<Rightarrow> False | Some oc \<Rightarrow> oc \<noteq> [] \<and> startswith (upper oc) ''IN'')
      then Some ''pl_sea_export_lcl''
      else None)"


text \<open>The spec's wording of the test: the code starts with the letters I, N in either case.\<close>

definition starts_with_IN :: "string option \<Rightarrow> bool" where
  "starts_with_IN code =
     (case code of
        Some (a # b # _) \<Rightarrow> a \<in> {CHR ''I'', CHR ''i''} \<and> b \<in> {CHR ''N'', CHR ''n''}
      | _ \<Rightarrow> False)"

section \<open>Incoterm parser (\<open>utils.parse_incoterm\<close>)\<close>

definition VALID_INCOTERMS :: "string list" where
  "VALID_INCOTERMS = [''FOB'', ''CIF'', ''CFR'', ''EXW'', ''DDP'', ''DAP'', ''FCA'', ''CPT'', ''CIP'', ''DPU'']"

text \<open>
  \<open>VALID_INCOTERMS\<close> is a Python set, whose iteration order is not fixed; \<open>order\<close> is the
  order in which the loop visits its members. The pattern is \<open>\b\<close>, the escaped term
  (letters escape to themselves), \<open>\b\<close>, searched in the upper-cased text.
\<close>

definition parse_incoterm :: "string list \<Rightarrow> string option \<Rightarrow> string option" where
  "parse_incoterm order text =
     (case text of
        None \<Rightarrow> None
      | Some t \<Rightarrow>
          if t = [] then None
          else let txt = upper t;
                   found = filter (\<lambda>inc. search False (Cat Bnd (Cat (Lit inc) Bnd)) txt) order
               in case found of
                    [] \<Rightarrow> None
                  | f # rest \<Rightarrow> if length found > 1 then Some ''FOB'' else Some f)"


section \<open>Port index builder (\<open>utils.build_port_index\<close>)\<close>

text \<open>
  A reference entry is a JSON object; \<open>entry.get\<close> gives \<open>None\<close> for a missing key. The two
  dictionaries are maps from strings to strings.
\<close>

record port_entry =
  entry_code :: "string option"
  entry_name :: "string option"

text \<open>The class \<open>[\s,-/]\<close>: whitespace and the range from the comma to the slash, which
  holds the comma, the hyphen, the full stop and the slash.\<close>

definition is_sep :: "char \<Rightarrow> bool" where
  "is_sep c = (is_space c \<or> c \<in> set [CHR '','', CHR ''-'', CHR ''.'', CHR ''/''])"

text \<open>\<open>re.split\<close> on maximal runs of separators; a text that starts or ends with a
  separator yields an empty first or last piece.\<close>

function re_split :: "string \<Rightarrow> string list" where
  "re_split s =
     (let tok = takeWhile (\<lambda>c. \<not> is_sep c) s; rest = dropWhile (\<lambda>c. \<not> is_sep c) s
      in if rest = [] then [tok] else tok # re_split (dropWhile is_sep rest))"
  by pat_completeness auto
termination
proof (relation "measure length")
  show "wf (measure length)" by simp
next
  fix s tok rest
  assume r: "rest = dropWhile (\<lambda>c. \<not> is_sep c) s" and ne: "rest \<noteq> []"
  from ne obtain c cs where c: "rest = c # cs" by (cases rest) auto
  have "length (dropWhile is_sep rest) \<le> length cs"
  proof -
    have "is_sep c" using c r by (metis hd_dropWhile list.sel(1) ne)
    then have "dropWhile is_sep rest = dropWhile is_sep cs" using c by simp
    then show ?thesis by (simp add: length_dropWhile_le)
  qed
  moreover have "length rest \<le> length s" using r by (simp add: length_dropWhile_le)
  ultimately show "(dropWhile is_sep rest, s) \<in> measure length" using c by simp
qed

definition setdefault :: "(string \<rightharpoonup> string) \<Rightarrow> string \<Rightarrow> string \<Rightarrow> (string \<rightharpoonup> string)" where
  "setdefault m k v = (case m k of None \<Rightarrow> m(k \<mapsto> v) | Some _ \<Rightarrow> m)"

definition add_tokens :: "string \<Rightarrow> string list \<Rightarrow> (string \<rightharpoonup> string) \<Rightarrow> (string \<rightharpoonup> string)" where
  "add_tokens code toks m = fold (\<lambda>tok m. if 2 \<le> length tok then setdefault m tok code else m) toks m"

text \<open>One pass of the loop body; the state is the pair \<open>(name_to_code, code_to_name)\<close>.\<close>

definition add_entry ::
  "(string \<rightharpoonup> string) \<times> (string \<rightharpoonup> string) \<Rightarrow> port_entry
     \<Rightarrow> (string \<rightharpoonup> string) \<times> (string \<rightharpoonup> string)" where
  "add_entry acc entry =
     (case (entry_code entry, entry_name entry) of
        (Some code, Some name) \<Rightarrow>
          if code = [] \<or> name = [] then acc
          else let code_to_name = (snd acc)(code \<mapsto> name);
                   name_to_code = (fst acc)(lower name \<mapsto> code)
               in (add_tokens code (re_split (lower name)) name_to_code, code_to_name)
      | _ \<Rightarrow> acc)"

definition build_port_index ::
  "port_entry list \<Rightarrow> (string \<rightharpoonup> string) \<times> (string \<rightharpoonup> string)" where
  "build_port_index ref = foldl add_entry (Map.empty, Map.empty) ref"

text \<open>The entry is registered (it has a code and a name, both non-empty) and \<open>k\<close> is its
  full lowercased name.\<close>

definition full_name_key :: "port_entry \<Rightarrow> string \<Rightarrow> bool" where
  "full_name_key entry k =
     (case (entry_code entry, entry_name entry) of
        (Some code, Some name) \<Rightarrow> code \<noteq> [] \<and> name \<noteq> [] \<and> lower name = k
      | _ \<Rightarrow> False)"

section \<open>Python floats\<close>

text \<open>
  A Python float is an IEEE 754 binary64 number. Finite non-zero values and positive zero
  are modelled by the rational number they denote; every operation computes the exact
  rational result and rounds it to the nearest binary64 value, ties to the even
  significand (\<open>fl\<close>), overflowing to an infinity.
\<close>

datatype pyfloat = Finite rat | NegZero | PosInf | NegInf | NaN

datatype error = TypeError | ValueError | OverflowError | ValidationError | JSONDecodeError | OtherError

text \<open>Round half to even, to an integer.\<close>

definition rhe :: "rat \<Rightarrow> int" where
  "rhe q = (let f = \<lfloor>q\<rfloor>; d = q - of_int f
            in if d < 1 / 2 then f else if 1 / 2 < d then f + 1
               else if even f then f else f + 1)"

fun bit_length :: "nat \<Rightarrow> nat" where
  "bit_length n = (if n = 0 then 0 else Suc (bit_length (n div 2)))"

text \<open>\<open>ilog2 q\<close> is the integer \<open>e\<close> with \<open>2^e \<le> q < 2^(e+1)\<close>, for \<open>q > 0\<close>.\<close>

definition ilog2 :: "rat \<Rightarrow> int" where
  "ilog2 q = (let (a, b) = quotient_of q;
                  e = int (bit_length (nat a)) - int (bit_length (nat b))
              in if 2 powi e \<le> q then e else e - 1)"

text \<open>The spacing of binary64 numbers around \<open>q > 0\<close>: 53 significant bits, least
  exponent \<open>-1022\<close> (below it the numbers are subnormal, with spacing \<open>2^-1074\<close>).\<close>

definition quantum :: "rat \<Rightarrow> rat" where
  "quantum q = 2 powi (max (ilog2 q) (- 1022) - 52)"

definition fl_pos :: "rat \<Rightarrow> rat" where
  "fl_pos q = (if q = 0 then 0 else of_int (rhe (q / quantum q)) * quantum q)"

definition signed :: "bool \<Rightarrow> rat \<Rightarrow> pyfloat" where
  "signed neg r =
     (if 2 ^ 1024 \<le> r then (if neg then NegInf else PosInf)
      else if r = 0 then (if neg then NegZero else Finite 0)
      else Finite (if neg then - r else r))"

definition fl :: "rat \<Rightarrow> pyfloat" where
  "fl q = signed (q < 0) (fl_pos \<bar>q\<bar>)"

definition is_zero :: "pyfloat \<Rightarrow> bool" where
  "is_zero x = (x = Finite 0 \<or> x = NegZero)"

definition is_inf :: "pyfloat \<Rightarrow> bool" where
  "is_inf x = (x = PosInf \<or> x = NegInf)"

fun negative :: "pyfloat \<Rightarrow> bool" where
  "negative (Finite q) = (q < 0)"
| "negative NegZero = True"
| "negative NegInf = True"
| "negative _ = False"

fun magnitude :: "pyfloat \<Rightarrow> rat" where
  "magnitude (Finite q) = \<bar>q\<bar>"
| "magnitude _ = 0"

text \<open>The product of two floats (\<open>x * y\<close>).\<close>

definition py_mul :: "pyfloat \<Rightarrow> pyfloat \<Rightarrow> pyfloat" where
  "py_mul x y =
     (if x = NaN \<or> y = NaN then NaN
      else if (is_inf x \<and> is_zero y) \<or> (is_zero x \<and> is_inf y) then NaN
      else let neg = (negative x \<noteq> negative y)
           in if is_inf x \<or> is_inf y then (if neg then NegInf else PosInf)
              else signed neg (fl_pos (magnitude x * magnitude y)))"

text \<open>
  \<open>round(x, 2)\<close>: infinities and NaN round to themselves; a finite value is converted to
  the decimal with two fractional digits nearest to its exact value (ties to even) and that
  decimal is converted back to the nearest float; a result too large raises OverflowError.
\<close>

definition py_round2 :: "pyfloat \<Rightarrow> error + pyfloat" where
  "py_round2 x =
     (case x of
        Finite q \<Rightarrow>
          (let r = fl_pos (of_int (rhe (\<bar>q\<bar> * 100)) / 100)
           in if 2 ^ 1024 \<le> r then Inl OverflowError else Inr (signed (q < 0) r))
      | _ \<Rightarrow> Inr x)"

text \<open>Truth value of a float: zero of either sign is false.\<close>

definition truthy :: "pyfloat \<Rightarrow> bool" where
  "truthy x = (\<not> is_zero x)"

section \<open>Converting Python values to float\<close>

text \<open>A value as it arrives in a raw record: \<open>None\<close>, a bool, an int, a float, a string, or
  anything else (a list, a dict).\<close>

datatype pyval = PNone | PBool bool | PInt int | PFloat pyfloat | PStr string | POther

text \<open>\<open>str.strip()\<close> drops the characters of \<open>str.isspace\<close> at both ends.\<close>

definition strip :: "string \<Rightarrow> string" where
  "strip s = rev (dropWhile is_space (rev (dropWhile is_space s)))"

text \<open>\<open>float\<close> of an ASCII string drops only the whitespace of C at both ends: space and
  \<open>\t \n \v \f \r\<close>, not the separators 0x1C to 0x1F.\<close>

definition is_c_space :: "char \<Rightarrow> bool" where
  "is_c_space c = (c \<in> set [CHR '' '', CHR 0x09, CHR 0x0A, CHR 0x0B, CHR 0x0C, CHR 0x0D])"

definition float_strip :: "string \<Rightarrow> string" where
  "float_strip s = rev (dropWhile is_c_space (rev (dropWhile is_c_space s)))"

text \<open>An underscore is accepted only between two digits.\<close>

fun underscores_ok :: "char option \<Rightarrow> string \<Rightarrow> bool" where
  "underscores_ok prev [] = True"
| "underscores_ok prev (c # cs) =
     (if c = CHR ''_''
      then (case (prev, cs) of
              (Some p, n # _) \<Rightarrow> is_digit p \<and> is_digit n \<and> underscores_ok (Some c) cs
            | _ \<Rightarrow> False)
      else underscores_ok (Some c) cs)"

definition digit_val :: "char \<Rightarrow> nat" where
  "digit_val c = length (takeWhile (\<lambda>d. d \<noteq> c) digits)"

definition nat_of_digits :: "string \<Rightarrow> nat" where
  "nat_of_digits ds = foldl (\<lambda>a c. 10 * a + digit_val c) 0 ds"

definition split_sign :: "string \<Rightarrow> bool \<times> string" where
  "split_sign s =
     (case s of
        c # t \<Rightarrow> if c = CHR ''-'' then (True, t) else if c = CHR ''+'' then (False, t) else (False, s)
      | [] \<Rightarrow> (False, s))"

definition parse_exponent :: "string \<Rightarrow> int option" where
  "parse_exponent s =
     (case s of
        [] \<Rightarrow> Some 0
      | c # t \<Rightarrow>
          if c = CHR ''e'' \<or> c = CHR ''E''
          then (let (neg, ds) = split_sign t
                in if ds \<noteq> [] \<and> list_all is_digit ds
                   then Some (if neg then - int (nat_of_digits ds) else int (nat_of_digits ds))
                   else None)
          else None)"

text \<open>
  \<open>float(s)\<close> for a string: surrounding C whitespace is dropped; then an optional sign and
  either \<open>inf\<close>, \<open>infinity\<close>, \<open>nan\<close> in any case or a decimal numeral with an optional
  fraction and exponent; the value is rounded to the nearest float. \<open>None\<close> is ValueError.
\<close>

definition float_of_str :: "string \<Rightarrow> pyfloat option" where
  "float_of_str s =
     (let t = float_strip s in
      if \<not> underscores_ok None t then None
      else let (neg, r) = split_sign (filter (\<lambda>c. c \<noteq> CHR ''_'') t); lr = lower r in
        if lr = ''inf'' \<or> lr = ''infinity'' then Some (if neg then NegInf else PosInf)
        else if lr = ''nan'' then Some NaN
        else let ip = takeWhile is_digit r; r1 = dropWhile is_digit r;
                 (fp, r2) = (case r1 of
                               c # u \<Rightarrow> if c = CHR ''.''
                                        then (takeWhile is_digit u, dropWhile is_digit u)
                                        else ([], r1)
                             | [] \<Rightarrow> ([], []))
             in if ip = [] \<and> fp = [] then None
                else (case parse_exponent r2 of
                        None \<Rightarrow> None
                      | Some ex \<Rightarrow>
                          Some (signed neg
                                 (fl_pos (of_nat (nat_of_digits (ip @ fp))
                                          * 10 powi (ex - int (length fp)))))))"

text \<open>\<open>float(v)\<close>: an int too large for a float raises OverflowError.\<close>

definition py_float :: "pyval \<Rightarrow> error + pyfloat" where
  "py_float v =
     (case v of
        PNone \<Rightarrow> Inl TypeError
      | PBool b \<Rightarrow> Inr (Finite (if b then 1 else 0))
      | PInt n \<Rightarrow> (let x = fl (of_int n) in if is_inf x then Inl OverflowError else Inr x)
      | PFloat x \<Rightarrow> Inr x
      | PStr s \<Rightarrow> (case float_of_str s of None \<Rightarrow> Inl ValueError | Some x \<Rightarrow> Inr x)
      | POther \<Rightarrow> Inl TypeError)"

section \<open>Result normalizer (\<open>schemas.ExtractionResult\<close>)\<close>

text \<open>The validator of \<open>cargo_weight_kg\<close>; \<open>except Exception\<close> turns every error into
  \<open>None\<close>.\<close>

definition round_weight :: "pyval \<Rightarrow> pyfloat option" where
  "round_weight v =
     (if v = PNone then None
      else (case py_float v of
              Inl _ \<Rightarrow> None
            | Inr x \<Rightarrow> (case py_round2 x of Inl _ \<Rightarrow> None | Inr y \<Rightarrow> Some y)))"

definition round_cbm :: "pyval \<Rightarrow> pyfloat option" where
  "round_cbm v =
     (if v = PNone then None
      else (case py_float v of
              Inl _ \<Rightarrow> None
            | Inr x \<Rightarrow> (case py_round2 x of Inl _ \<Rightarrow> None | Inr y \<Rightarrow> Some y)))"

text \<open>The validator of \<open>incoterm\<close>, on the declared field type: a string or \<open>None\<close>.\<close>

definition norm_incoterm :: "string option \<Rightarrow> string option" where
  "norm_incoterm v =
     (case v of
        None \<Rightarrow> None
      | Some t \<Rightarrow> (let s = upper (strip t) in if s = [] then None else Some s))"

text \<open>
  The keyword arguments given to the model. \<open>raw_id = None\<close> stands for a missing or null
  \<open>id\<close>, which the required string field rejects; \<open>raw_is_dangerous = None\<close> stands for
  an absent key, which takes the default.
\<close>

record raw_record =
  raw_id :: "string option"
  raw_product_line :: "string option"
  raw_origin_port_code :: "string option"
  raw_origin_port_name :: "string option"
  raw_destination_port_code :: "string option"
  raw_destination_port_name :: "string option"
  raw_incoterm :: "string option"
  raw_cargo_weight_kg :: pyval
  raw_cargo_cbm :: pyval
  raw_is_dangerous :: "bool option"

record extraction_result =
  id' :: string
  product_line :: "string option"
  origin_port_code :: "string option"
  origin_port_name :: "string option"
  destination_port_code :: "string option"
  destination_port_name :: "string option"
  incoterm :: "string option"
  cargo_weight_kg :: "pyfloat option"
  cargo_cbm :: "pyfloat option"
  is_dangerous :: bool

definition ExtractionResult :: "raw_record \<Rightarrow> error + extraction_result" where
  "ExtractionResult raw =
     (case raw_id raw of
        None \<Rightarrow> Inl ValidationError
      | Some i \<Rightarrow>
          Inr \<lparr>id' = i,
               product_line = raw_product_line raw,
               origin_port_code = raw_origin_port_code raw,
               origin_port_name = raw_origin_port_name raw,
               destination_port_code = raw_destination_port_code raw,
               destination_port_name = raw_destination_port_name raw,
               incoterm = norm_incoterm (raw_incoterm raw),
               cargo_weight_kg = round_weight (raw_cargo_weight_kg raw),
               cargo_cbm = round_cbm (raw_cargo_cbm raw),
               is_dangerous = (case raw_is_dangerous raw of None \<Rightarrow> False | Some b \<Rightarrow> b)\<rparr>)"

definition opt_float :: "pyfloat option \<Rightarrow> pyval" where
  "opt_float x = (case x of None \<Rightarrow> PNone | Some y \<Rightarrow> PFloat y)"

text \<open>\<open>validated.dict()\<close>, given back as keyword arguments.\<close>

definition dict_of :: "extraction_result \<Rightarrow> raw_record" where
  "dict_of r =
     \<lparr>raw_id = Some (id' r),
      raw_product_line = product_line r,
      raw_origin_port_code = origin_port_code r,
      raw_origin_port_name = origin_port_name r,
      raw_destination_port_code = destination_port_code r,
      raw_destination_port_name = destination_port_name r,
      raw_incoterm = incoterm r,
      raw_cargo_weight_kg = opt_float (cargo_weight_kg r),
      raw_cargo_cbm = opt_float (cargo_cbm r),
      raw_is_dangerous = Some (is_dangerous r)\<rparr>"

section \<open>Volume and weight parsers (\<open>utils.parse_cbm\<close>, \<open>utils.parse_weight_kg\<close>)\<close>

text \<open>The group \<open>(\d+(?:[\.,]\d+)?)\<close>.\<close>

definition num_rx :: rx where
  "num_rx = Cat (Many1 Digit) (Opt (Cat (In (OneOf ''.,'')) (Many1 Digit)))"

text \<open>What follows the group: \<open>\s*(?:u1|u2|...)\b\<close>, the alternatives in their written order.\<close>

fun alts :: "string list \<Rightarrow> rx" where
  "alts [] = Lit []"
| "alts [u] = Lit u"
| "alts (u # us) = Alt (Lit u) (alts us)"

definition unit_tail :: "string list \<Rightarrow> rx" where
  "unit_tail units = Cat (Many Space) (Cat (alts units) Bnd)"

definition cbm_units :: "string list" where
  "cbm_units = [''cbm'', ''m3'', ''cubic meters'', ''cubic metres'']"

definition kg_units :: "string list" where
  "kg_units = [''kg'', ''kgs'']"

definition tonne_units :: "string list" where
  "tonne_units = [''tonne'', ''tonnes'', ''t'', ''mt'']"

definition lb_units :: "string list" where
  "lb_units = [''lb'', ''lbs'']"

text \<open>\<open>\b0\s*(?:kg|kgs|lb|lbs|tonne|t|mt)\b\<close>, searched without \<open>re.I\<close>.\<close>

definition zero_rx :: rx where
  "zero_rx = Cat Bnd (Cat (Lit ''0'')
               (unit_tail [''kg'', ''kgs'', ''lb'', ''lbs'', ''tonne'', ''t'', ''mt'']))"

text \<open>\<open>\b(?:TBD|N/A|TO BE CONFIRMED|TO BE ADVISED)\b\<close>.\<close>

definition placeholder_rx :: rx where
  "placeholder_rx = Cat Bnd (Cat (alts [''TBD'', ''N/A'', ''TO BE CONFIRMED'', ''TO BE ADVISED'']) Bnd)"

text \<open>\<open>float(m.group(1).replace(',', '.'))\<close>; a string that \<open>float\<close> rejects raises
  ValueError.\<close>

definition group_float :: "string \<Rightarrow> error + pyfloat" where
  "group_float g =
     (case float_of_str (map (\<lambda>c. if c = CHR '','' then CHR ''.'' else c) g) of
        None \<Rightarrow> Inl ValueError
      | Some x \<Rightarrow> Inr x)"

text \<open>The float literals \<open>1000.0\<close> and \<open>0.453592\<close>.\<close>

definition thousand :: pyfloat where
  "thousand = Finite 1000"

definition lb_factor :: pyfloat where
  "lb_factor = Finite (1021398381089119 / 2251799813685248)"

definition parse_cbm :: "string option \<Rightarrow> error + pyfloat option" where
  "parse_cbm text =
     (case text of
        None \<Rightarrow> Inr None
      | Some t \<Rightarrow>
          if t = [] then Inr None
          else (case search_group True num_rx (unit_tail cbm_units) t of
                  Some g \<Rightarrow> map_sum id Some (group_float g)
                | None \<Rightarrow> Inr None))"

definition parse_weight_kg :: "string option \<Rightarrow> error + pyfloat option" where
  "parse_weight_kg text =
     (case text of
        None \<Rightarrow> Inr None
      | Some t \<Rightarrow>
          if t = [] then Inr None
          else (case search_group True num_rx (unit_tail kg_units) t of
                  Some g \<Rightarrow> map_sum id Some (group_float g)
                | None \<Rightarrow>
             (case search_group True num_rx (unit_tail tonne_units) t of
                  Some g \<Rightarrow> map_sum id (\<lambda>x. Some (py_mul x thousand)) (group_float g)
                | None \<Rightarrow>
             (case search_group True num_rx (unit_tail lb_units) t of
                  Some g \<Rightarrow> map_sum id (\<lambda>x. Some (py_mul x lb_factor)) (group_float g)
                | None \<Rightarrow>
                    if search False zero_rx t then Inr (Some (Finite 0))
                    else if search True placeholder_rx t then Inr None
                    else Inr None))))"

section \<open>Extraction orchestrator (\<open>extract.rule_extract\<close>)\<close>

text \<open>A field of an email object: the key is absent, or its value is null, or a string.\<close>

datatype field = Missing | Null | Text string

record email =
  email_id :: "string option"
  subject :: field
  body :: field

text \<open>\<open>email.get(key, "")\<close>: the default replaces an absent key only.\<close>

definition get_default :: "field \<Rightarrow> string option" where
  "get_default f = (case f of Missing \<Rightarrow> Some [] | Null \<Rightarrow> None | Text s \<Rightarrow> Some s)"

text \<open>\<open>a or b\<close> on optional floats: \<open>None\<close> and zero are false. The second operand is
  evaluated only when the first is false.\<close>

definition or_float :: "error + pyfloat option \<Rightarrow> error + pyfloat option \<Rightarrow> error + pyfloat option" where
  "or_float a b =
     (case a of
        Inl e \<Rightarrow> Inl e
      | Inr None \<Rightarrow> b
      | Inr (Some x) \<Rightarrow> if truthy x then Inr (Some x) else b)"

definition or_str :: "string option \<Rightarrow> string option \<Rightarrow> string option" where
  "or_str a b = (case a of None \<Rightarrow> b | Some s \<Rightarrow> if s = [] then b else Some s)"

definition lookup_name :: "(string \<rightharpoonup> string) \<Rightarrow> string option \<Rightarrow> string option" where
  "lookup_name code_to_name c =
     (case c of None \<Rightarrow> None | Some k \<Rightarrow> if k = [] then None else code_to_name k)"

text \<open>
  \<open>find_ports\<close> stands for \<open>find_ports_in_text(\<cdot>, name_index)\<close>, whose result depends on
  the fuzzy matcher of an external library; it returns the codes found or the exception
  raised. \<open>order\<close> is the iteration order of the incoterm set.
\<close>

definition rule_extract ::
  "string list \<Rightarrow> (string \<Rightarrow> error + string list) \<Rightarrow> (string \<rightharpoonup> string) \<Rightarrow> email
     \<Rightarrow> error + raw_record" where
  "rule_extract order find_ports code_to_name e =
     (case (get_default (subject e), get_default (body e)) of
        (Some subj, Some bod) \<Rightarrow>
          (let combined = subj @ [CHR 0x0A] @ bod in
           case find_ports bod of Inl err \<Rightarrow> Inl err | Inr body_ports \<Rightarrow>
           case find_ports subj of Inl err \<Rightarrow> Inl err | Inr subj_ports \<Rightarrow>
           let ports = (if body_ports \<noteq> [] then body_ports else subj_ports);
               origin = (if 1 \<le> length ports then Some (ports ! 0) else None);
               dest = (if 2 \<le> length ports then Some (ports ! 1) else None);
               inc = or_str (or_str (parse_incoterm order (Some bod)) (parse_incoterm order (Some subj)))
                            (Some ''FOB'')
           in case or_float (parse_cbm (Some bod)) (parse_cbm (Some subj)) of
                Inl err \<Rightarrow> Inl err | Inr cbm \<Rightarrow>
              case or_float (parse_weight_kg (Some bod)) (parse_weight_kg (Some subj)) of
                Inl err \<Rightarrow> Inl err | Inr weight \<Rightarrow>
              Inr \<lparr>raw_id = email_id e,
                   raw_product_line = choose_product_line origin dest,
                   raw_origin_port_code = origin,
                   raw_origin_port_name = lookup_name code_to_name origin,
                   raw_destination_port_code = dest,
                   raw_destination_port_name = lookup_name code_to_name dest,
                   raw_incoterm = inc,
                   raw_cargo_weight_kg = opt_float weight,
                   raw_cargo_cbm = opt_float cbm,
                   raw_is_dangerous = Some (detect_dangerous (Some combined))\<rparr>)
      | _ \<Rightarrow> Inl TypeError)"

section \<open>Batch driver (\<open>extract.main\<close>)\<close>

text \<open>A field inside the f-string of the prompt: an absent or null value is written
  \<open>None\<close>.\<close>

definition str_field :: "field \<Rightarrow> string" where
  "str_field f = (case f of Text s \<Rightarrow> s | _ \<Rightarrow> ''None'')"

definition prompt_of :: "email \<Rightarrow> string" where
  "prompt_of e =
     str_field (subject e) @ [CHR 0x0A, CHR 0x0A] @ str_field (body e) @ [CHR 0x0A, CHR 0x0A]"

text \<open>\<open>re.search(r"\{[\s\S]*\}", resp)\<close> and \<open>m.group(0)\<close>: from the first opening brace to
  the last closing brace after it.\<close>

definition json_block :: "string \<Rightarrow> string option" where
  "json_block resp =
     (case dropWhile (\<lambda>c. c \<noteq> CHR ''{'') resp of
        [] \<Rightarrow> None
      | _ # r \<Rightarrow>
          (case dropWhile (\<lambda>c. c \<noteq> CHR ''}'') (rev r) of
             [] \<Rightarrow> None
           | b \<Rightarrow> Some (CHR ''{'' # rev b)))"

text \<open>
  The body of the \<open>try\<close> block up to the raw record. \<open>call_llm\<close> stands for the evaluation of
  the call \<open>call_llm(prompt, retries=int(...), temperature=float(...))\<close>: the text of the
  response, \<open>None\<close>, or the exception raised by the conversion of a setting. \<open>json_loads\<close>
  stands for \<open>json.loads\<close> on the block, its object read as the keyword arguments of the
  model; it gives the exception raised for a text that is no JSON, and for an object with a
  value that does not fit the type of its field the ValidationError with which the model
  rejects it.
\<close>

definition extract_raw ::
  "bool \<Rightarrow> string list \<Rightarrow> (string \<Rightarrow> error + string list) \<Rightarrow> (string \<rightharpoonup> string)
     \<Rightarrow> (string \<Rightarrow> error + string option) \<Rightarrow> (string \<Rightarrow> error + raw_record)
     \<Rightarrow> email \<Rightarrow> error + raw_record" where
  "extract_raw mock order find_ports code_to_name call_llm json_loads e =
     (if mock then rule_extract order find_ports code_to_name e
      else (case call_llm (prompt_of e) of
              Inl err \<Rightarrow> Inl err
            | Inr None \<Rightarrow> rule_extract order find_ports code_to_name e
            | Inr (Some resp) \<Rightarrow>
                if resp = [] then rule_extract order find_ports code_to_name e
                else (case json_block resp of
                        Some blk \<Rightarrow> json_loads blk
                      | None \<Rightarrow> rule_extract order find_ports code_to_name e)))"

text \<open>The whole \<open>try\<close> block: the raw record, validated.\<close>

definition try_extract ::
  "bool \<Rightarrow> string list \<Rightarrow> (string \<Rightarrow> error + string list) \<Rightarrow> (string \<rightharpoonup> string)
     \<Rightarrow> (string \<Rightarrow> error + string option) \<Rightarrow> (string \<Rightarrow> error + raw_record)
     \<Rightarrow> email \<Rightarrow> error + extraction_result" where
  "try_extract mock order find_ports code_to_name call_llm json_loads e =
     (case extract_raw mock order find_ports code_to_name call_llm json_loads e of
        Inl err \<Rightarrow> Inl err
      | Inr raw \<Rightarrow> ExtractionResult raw)"

text \<open>The keyword arguments of the \<open>except\<close> handler.\<close>

definition null_record :: "string option \<Rightarrow> raw_record" where
  "null_record i =
     \<lparr>raw_id = i,
      raw_product_line = None,
      raw_origin_port_code = None,
      raw_origin_port_name = None,
      raw_destination_port_code = None,
      raw_destination_port_name = None,
      raw_incoterm = None,
      raw_cargo_weight_kg = PNone,
      raw_cargo_cbm = PNone,
      raw_is_dangerous = Some False\<rparr>"

text \<open>One turn of the loop: \<open>except Exception\<close> catches what the \<open>try\<close> block raises; what
  the handler itself raises is not caught.\<close>

definition process_email ::
  "bool \<Rightarrow> string list \<Rightarrow> (string \<Rightarrow> error + string list) \<Rightarrow> (string \<rightharpoonup> string)
     \<Rightarrow> (string \<Rightarrow> error + string option) \<Rightarrow> (string \<Rightarrow> error + raw_record)
     \<Rightarrow> email \<Rightarrow> error + extraction_result" where
  "process_email mock order find_ports code_to_name call_llm json_loads e =
     (case try_extract mock order find_ports code_to_name call_llm json_loads e of
        Inr validated \<Rightarrow> Inr validated
      | Inl _ \<Rightarrow> ExtractionResult (null_record (email_id e)))"

text \<open>The loop over the emails, with the list \<open>outputs\<close> built so far; an exception that
  leaves the loop ends \<open>main\<close> before anything is written.\<close>

fun main_loop ::
  "bool \<Rightarrow> string list \<Rightarrow> (string \<Rightarrow> error + string list) \<Rightarrow> (string \<rightharpoonup> string)
     \<Rightarrow> (string \<Rightarrow> error + string option) \<Rightarrow> (string \<Rightarrow> error + raw_record)
     \<Rightarrow> email list \<Rightarrow> extraction_result list \<Rightarrow> error + extraction_result list" where
  "main_loop mock order find_ports code_to_name call_llm json_loads [] outputs = Inr outputs"
| "main_loop mock order find_ports code_to_name call_llm json_loads (e # es) outputs =
     (case process_email mock order find_ports code_to_name call_llm json_loads e of
        Inl err \<Rightarrow> Inl err
      | Inr r \<Rightarrow>
          main_loop mock order find_ports code_to_name call_llm json_loads es (outputs @ [r]))"

definition main ::
  "bool \<Rightarrow> string list \<Rightarrow> (string \<Rightarrow> error + string list) \<Rightarrow> (string \<rightharpoonup> string)
     \<Rightarrow> (string \<Rightarrow> error + string option) \<Rightarrow> (string \<Rightarrow> error + raw_record)
     \<Rightarrow> email list \<Rightarrow> error + extraction_result list" where
  "main mock order find_ports code_to_name call_llm json_loads emails =
     main_loop mock order find_ports code_to_name call_llm json_loads emails []"

section \<open>Facts about substring search\<close>

lemma str_in_sublist: "str_in n s = sublist n s"
  by (induction s) (auto simp: sublist_Cons_right)

lemma ends_Lit_False:
  "ends False (Lit w) s i = (if prefix w (drop i s) then [i + length w] else [])"
proof -
  have "list_all2 (chr_eq False) w v = (w = v)" for v
    by (simp add: chr_eq_def[abs_def] list.rel_eq)
  moreover have "(length w \<le> length s - i \<and> w = take (length w) (drop i s)) = prefix w (drop i s)"
    by (metis length_drop prefix_def prefix_length_le take_is_prefix append_eq_conv_conj)
  ultimately show ?thesis by simp
qed

lemma search_Lit: "search False (Lit w) s = sublist w s"
proof -
  have "search False (Lit w) s = (\<exists>i\<le>length s. prefix w (drop i s))"
  proof -
    have "set [0 ..< length s + 1] = {i. i \<le> length s}" by auto
    then show ?thesis
      unfolding search_def list_ex_iff ends_Lit_False by auto
  qed
  also have "\<dots> = sublist w s"
  proof
    assume "\<exists>i\<le>length s. prefix w (drop i s)"
    then obtain i zs where "drop i s = w @ zs" by (auto simp: prefix_def)
    then have "s = take i s @ w @ zs" by (metis append_take_drop_id)
    then show "sublist w s" unfolding sublist_def by blast
  next
    assume "sublist w s"
    then obtain ps ss where s: "s = ps @ w @ ss" unfolding sublist_def by blast
    then have "drop (length ps) s = w @ ss" by simp
    moreover have "length ps \<le> length s" using s by simp
    ultimately show "\<exists>i\<le>length s. prefix w (drop i s)" by (metis prefixI)
  qed
  finally show ?thesis .
qed

section \<open>Dangerous-goods detection: negation and keywords\<close>

text \<open>
  C3. If one of the five negation phrases occurs anywhere in the lowercased text, the
  detector answers false, whatever positive keyword the text also contains; the text
  "This shipment is non-hazardous but contains Class 9 materials" is answered false; the
  empty text and the absent text are answered false.
\<close>

theorem detect_dangerous_negation_first:
  "((\<exists>n \<in> set negatives. sublist n (lower t)) \<longrightarrow> detect_dangerous (Some t) = False)
   \<and> detect_dangerous (Some ''This shipment is non-hazardous but contains Class 9 materials'') = False
   \<and> detect_dangerous (Some []) = False
   \<and> detect_dangerous None = False"
proof -
  have "detect_dangerous (Some t) = False" if "\<exists>n \<in> set negatives. sublist n (lower t)"
    using that by (auto simp: detect_dangerous_def Let_def list_ex_iff str_in_sublist)
  moreover have "detect_dangerous
      (Some ''This shipment is non-hazardous but contains Class 9 materials'') = False"
    by code_simp
  moreover have "detect_dangerous (Some []) = False" "detect_dangerous None = False"
    by (simp_all add: detect_dangerous_def)
  ultimately show ?thesis by blast
qed

theorem detect_dangerous_negation_first_witness:
  "(\<exists>n \<in> set negatives. sublist n (lower ''Non-DG cargo, not IMDG class 3''))
   \<and> search False (Lit ''imdg'') (lower ''Non-DG cargo, not IMDG class 3'')
   \<and> detect_dangerous (Some ''Non-DG cargo, not IMDG class 3'') = False"
proof -
  have h: "\<exists>n \<in> set negatives. sublist n (lower ''Non-DG cargo, not IMDG class 3'')"
    by code_simp
  have k: "search False (Lit ''imdg'') (lower ''Non-DG cargo, not IMDG class 3'')"
    by code_simp
  from h k detect_dangerous_negation_first [of "''Non-DG cargo, not IMDG class 3''"]
  show ?thesis by blast
qed

text \<open>
  C10. The keyword \<open>dg\<close> is searched as a bare substring: every text whose lowercase form
  contains the letters d, g next to each other, and none of the five negation phrases, is
  answered true, also when \<open>dg\<close> lies inside another word.
\<close>

theorem detect_dangerous_bare_dg:
  assumes "sublist ''dg'' (lower t)"
    and "\<forall>n \<in> set negatives. \<not> sublist n (lower t)"
  shows "detect_dangerous (Some t) = True"
proof -
  from assms(1) have "lower t \<noteq> []" by auto
  then have "t \<noteq> []" by (auto simp: lower_def)
  moreover have "search False (Lit ''dg'') (lower t)"
    using assms(1) by (simp add: search_Lit)
  then have "list_ex (\<lambda>k. search False k (lower t)) keywords_rx"
    unfolding keywords_rx_def list_ex_iff by (meson list.set_intros(1))
  ultimately show ?thesis
    using assms(2) by (simp add: detect_dangerous_def Let_def list_ex_iff str_in_sublist)
qed

theorem detect_dangerous_bare_dg_witness:
  "sublist ''dg'' (lower ''Visitor badge at the edge'')
   \<and> \<not> (\<exists>n \<in> set negatives. sublist n (lower ''Visitor badge at the edge''))
   \<and> detect_dangerous (Some ''Visitor badge at the edge'') = True"
proof -
  have a: "sublist ''dg'' (lower ''Visitor badge at the edge'')" by code_simp
  have b: "\<forall>n \<in> set negatives. \<not> sublist n (lower ''Visitor badge at the edge'')" by code_simp
  from a b detect_dangerous_bare_dg [OF a b] show ?thesis by blast
qed

section \<open>Product line\<close>

lemma upper_chr_I: "CHR ''I'' = upper_chr c \<longleftrightarrow> c = CHR ''I'' \<or> c = CHR ''i''"
  by (auto simp: upper_chr_def lower_letters_def upper_letters_def)

lemma upper_chr_N: "CHR ''N'' = upper_chr c \<longleftrightarrow> c = CHR ''N'' \<or> c = CHR ''n''"
  by (auto simp: upper_chr_def lower_letters_def upper_letters_def)

lemma startswith_upper_IN:
  "(case code of None \<Rightarrow> False | Some d \<Rightarrow> d \<noteq> [] \<and> startswith (upper d) ''IN'') = starts_with_IN code"
proof (cases code)
  case None
  then show ?thesis by (simp add: starts_with_IN_def)
next
  case (Some d)
  show ?thesis
  proof (cases d)
    case Nil
    with Some show ?thesis by (simp add: starts_with_IN_def)
  next
    case (Cons a r)
    with Some show ?thesis
      by (cases r) (simp_all add: starts_with_IN_def startswith_def upper_def upper_chr_I upper_chr_N)
  qed
qed

text \<open>
  C5. The product line is the import line when the destination code starts with IN (in
  either case), otherwise the export line when the origin code does, otherwise null; the
  destination is tested first, so two Indian codes give the import line. The three
  examples of the specification are included.
\<close>

theorem choose_product_line_priority:
  "choose_product_line origin dest =
     (if starts_with_IN dest then Some ''pl_sea_import_lcl''
      else if starts_with_IN origin then Some ''pl_sea_export_lcl''
      else None)
   \<and> choose_product_line None (Some ''INNSA'') = Some ''pl_sea_import_lcl''
   \<and> choose_product_line (Some ''INNSA'') (Some ''USLAX'') = Some ''pl_sea_export_lcl''
   \<and> choose_product_line (Some ''USLAX'') (Some ''USNYC'') = None
   \<and> choose_product_line (Some ''INNSA'') (Some ''inmaa'') = Some ''pl_sea_import_lcl''"
proof -
  have g: "choose_product_line a b =
     (if starts_with_IN b then Some ''pl_sea_import_lcl''
      else if starts_with_IN a then Some ''pl_sea_export_lcl''
      else None)" for a b
    unfolding choose_product_line_def startswith_upper_IN by (rule refl)
  show ?thesis
    unfolding g by (simp add: starts_with_IN_def)
qed

section \<open>Incoterm search as word occurrence\<close>
















section \<open>Port index: which registrations overwrite\<close>

lemma setdefault_keeps: "m k = Some c \<Longrightarrow> setdefault m tok v k = Some c"
  by (cases "m tok") (auto simp: setdefault_def)

lemma add_tokens_keeps: "m k = Some c \<Longrightarrow> add_tokens v toks m k = Some c"
  unfolding add_tokens_def
  by (induction toks arbitrary: m) (simp_all add: setdefault_keeps)

lemma add_entry_other:
  assumes "fst acc k = Some c" and "\<not> full_name_key entry k"
  shows "fst (add_entry acc entry) k = Some c"
proof (cases "entry_code entry")
  case None
  then show ?thesis using assms(1) by (simp add: add_entry_def)
next
  case (Some code)
  show ?thesis
  proof (cases "entry_name entry")
    case None
    with Some show ?thesis using assms(1) by (simp add: add_entry_def)
  next
    case (Some name)
    show ?thesis
    proof (cases "code = [] \<or> name = []")
      case True
      with Some \<open>entry_code entry = Some code\<close> show ?thesis
        using assms(1) by (simp add: add_entry_def)
    next
      case False
      with Some \<open>entry_code entry = Some code\<close> assms(2) have "lower name \<noteq> k"
        by (simp add: full_name_key_def)
      then have "((fst acc)(lower name \<mapsto> code)) k = Some c"
        using assms(1) by simp
      then have "add_tokens code (re_split (lower name)) ((fst acc)(lower name \<mapsto> code)) k = Some c"
        by (rule add_tokens_keeps)
      with False Some \<open>entry_code entry = Some code\<close> show ?thesis
        by (simp add: add_entry_def Let_def)
    qed
  qed
qed

lemma add_entry_full_name:
  assumes "full_name_key entry k"
  shows "fst (add_entry acc entry) k = entry_code entry"
proof -
  from assms obtain code name where e: "entry_code entry = Some code" "entry_name entry = Some name"
    and ne: "code \<noteq> []" "name \<noteq> []" and k: "lower name = k"
    by (auto simp: full_name_key_def split: option.splits)
  have "((fst acc)(lower name \<mapsto> code)) k = Some code" using k by simp
  then have "add_tokens code (re_split (lower name)) ((fst acc)(lower name \<mapsto> code)) k = Some code"
    by (rule add_tokens_keeps)
  with e ne show ?thesis by (simp add: add_entry_def Let_def)
qed

lemma foldl_add_entry_other:
  assumes "fst acc k = Some c" and "\<not> (\<exists>e \<in> set later. full_name_key e k)"
  shows "fst (foldl add_entry acc later) k = Some c"
  using assms
proof (induction later arbitrary: acc)
  case Nil
  then show ?case by simp
next
  case (Cons e es)
  from Cons.prems have "fst (add_entry acc e) k = Some c"
    by (intro add_entry_other) auto
  moreover from Cons.prems have "\<not> (\<exists>e \<in> set es. full_name_key e k)" by auto
  ultimately show ?case using Cons.IH by simp
qed

text \<open>
  C7, as stated, fails: the full lowercased name of an entry is assigned unconditionally.
  After the entry (INNSA, "Nhava Sheva") the key "sheva" is mapped to INNSA; processing the
  later entry (XXSHE, "Sheva") maps it to XXSHE.
\<close>

theorem build_port_index_overwrite:
  "fst (build_port_index
          [\<lparr>entry_code = Some ''INNSA'', entry_name = Some ''Nhava Sheva''\<rparr>]) ''sheva''
     = Some ''INNSA''
   \<and> fst (build_port_index
          [\<lparr>entry_code = Some ''INNSA'', entry_name = Some ''Nhava Sheva''\<rparr>,
           \<lparr>entry_code = Some ''XXSHE'', entry_name = Some ''Sheva''\<rparr>]) ''sheva''
     = Some ''XXSHE''"
  by code_simp

text \<open>
  C7, amended. Entries are processed in their given order. A key of \<open>token_to_code\<close> that is
  mapped to a code keeps that code while later entries are processed, unless one of them is
  a registered entry whose full lowercased name is that key: sub-token registration never
  overwrites. A registered entry always maps its own full lowercased name to its own code.
\<close>

theorem build_port_index_first_wins:
  "(fst (build_port_index ref) k = Some c \<and> \<not> (\<exists>e \<in> set later. full_name_key e k)
      \<longrightarrow> fst (build_port_index (ref @ later)) k = Some c)
   \<and> (full_name_key entry k \<longrightarrow> fst (build_port_index (ref @ [entry])) k = entry_code entry)"
proof (intro conjI impI)
  assume "fst (build_port_index ref) k = Some c \<and> \<not> (\<exists>e \<in> set later. full_name_key e k)"
  then show "fst (build_port_index (ref @ later)) k = Some c"
    by (simp add: build_port_index_def foldl_add_entry_other)
next
  assume "full_name_key entry k"
  then show "fst (build_port_index (ref @ [entry])) k = entry_code entry"
    by (simp add: build_port_index_def add_entry_full_name)
qed

theorem build_port_index_first_wins_witness:
  "fst (build_port_index
          [\<lparr>entry_code = Some ''INNSA'', entry_name = Some ''Nhava Sheva''\<rparr>]) ''sheva''
     = Some ''INNSA''
   \<and> \<not> full_name_key \<lparr>entry_code = Some ''USLAX'', entry_name = Some ''Los Angeles-Sheva''\<rparr> ''sheva''
   \<and> fst (build_port_index
          ([\<lparr>entry_code = Some ''INNSA'', entry_name = Some ''Nhava Sheva''\<rparr>]
           @ [\<lparr>entry_code = Some ''USLAX'', entry_name = Some ''Los Angeles-Sheva''\<rparr>])) ''sheva''
     = Some ''INNSA''
   \<and> full_name_key \<lparr>entry_code = Some ''XXSHE'', entry_name = Some ''Sheva''\<rparr> ''sheva''
   \<and> fst (build_port_index
          ([\<lparr>entry_code = Some ''INNSA'', entry_name = Some ''Nhava Sheva''\<rparr>]
           @ [\<lparr>entry_code = Some ''XXSHE'', entry_name = Some ''Sheva''\<rparr>])) ''sheva''
     = entry_code \<lparr>entry_code = Some ''XXSHE'', entry_name = Some ''Sheva''\<rparr>"
proof -
  let ?r = "[\<lparr>entry_code = Some ''INNSA'', entry_name = Some ''Nhava Sheva''\<rparr>]"
  let ?l = "\<lparr>entry_code = Some ''USLAX'', entry_name = Some ''Los Angeles-Sheva''\<rparr>"
  let ?x = "\<lparr>entry_code = Some ''XXSHE'', entry_name = Some ''Sheva''\<rparr>"
  have a: "fst (build_port_index ?r) ''sheva'' = Some ''INNSA''" by code_simp
  have b: "\<not> full_name_key ?l ''sheva''" by code_simp
  then have b': "\<not> (\<exists>e \<in> set [?l]. full_name_key e ''sheva'')" by simp
  have c: "full_name_key ?x ''sheva''" by code_simp
  from build_port_index_first_wins [of ?r "''sheva''" "''INNSA''" "[?l]" ?x] a b' c
  have "fst (build_port_index (?r @ [?l])) ''sheva'' = Some ''INNSA''"
    and "fst (build_port_index (?r @ [?x])) ''sheva'' = entry_code ?x"
    by blast+
  with a b c show ?thesis by (intro conjI)
qed

section \<open>Facts about rounding\<close>

lemma bit_length_bounds:
  "0 < n \<Longrightarrow> 2 ^ (bit_length n - 1) \<le> n \<and> n < 2 ^ bit_length n"
proof (induction n rule: bit_length.induct)
  case (1 n)
  show ?case
  proof (cases "n div 2 = 0")
    case True
    with "1.prems" have "n = 1" by (simp add: div_eq_0_iff)
    then show ?thesis by simp
  next
    case False
    then have pos: "0 < n div 2" by simp
    with "1.IH" "1.prems" have ih: "2 ^ (bit_length (n div 2) - 1) \<le> n div 2"
      "n div 2 < 2 ^ bit_length (n div 2)" by simp_all
    have bl: "bit_length n = Suc (bit_length (n div 2))" using "1.prems" by simp
    have "0 < bit_length (n div 2)" using pos by (subst bit_length.simps) simp
    then obtain k where k: "bit_length (n div 2) = Suc k" by (cases "bit_length (n div 2)") auto
    have "2 * 2 ^ k \<le> 2 * (n div 2)" using ih(1) k by simp
    also have "\<dots> \<le> n" by simp
    finally have lo: "2 ^ (bit_length n - 1) \<le> n" using bl k by simp
    have "n < 2 * (n div 2) + 2" by arith
    also have "\<dots> \<le> 2 * 2 ^ bit_length (n div 2)" using ih(2) by simp
    finally have "n < 2 ^ bit_length n" using bl by simp
    with lo show ?thesis by simp
  qed
qed

lemma ilog2_bounds:
  assumes "0 < q"
  shows "2 powi (ilog2 q) \<le> q" and "q < 2 powi (ilog2 q + 1)"
proof -
  obtain a b where ab: "quotient_of q = (a, b)" by (cases "quotient_of q")
  then have b: "0 < b" and q: "q = of_int a / of_int b"
    by (simp_all add: quotient_of_denom_pos quotient_of_div)
  from assms q b have a: "0 < a" by (simp add: zero_less_divide_iff)
  define la lb where "la = bit_length (nat a)" and "lb = bit_length (nat b)"
  define e where "e = int la - int lb"
  from bit_length_bounds [of "nat a"] a have A: "2 ^ (la - 1) \<le> nat a" "nat a < 2 ^ la"
    by (simp_all add: la_def)
  from bit_length_bounds [of "nat b"] b have B: "2 ^ (lb - 1) \<le> nat b" "nat b < 2 ^ lb"
    by (simp_all add: lb_def)
  have la0: "0 < la" using a by (simp add: la_def)
  have lb0: "0 < lb" using b by (simp add: lb_def)
  have ra: "(of_int a :: rat) = of_nat (nat a)" using a by simp
  have rb: "(of_int b :: rat) = of_nat (nat b)" using b by simp
  have A1: "(2::rat) ^ (la - 1) \<le> of_int a"
    unfolding ra using A(1) by (metis of_nat_le_iff of_nat_numeral of_nat_power)
  have A2: "of_int a < (2::rat) ^ la"
    unfolding ra using A(2) by (metis of_nat_less_iff of_nat_numeral of_nat_power)
  have B1: "(2::rat) ^ (lb - 1) \<le> of_int b"
    unfolding rb using B(1) by (metis of_nat_le_iff of_nat_numeral of_nat_power)
  have B2: "of_int b < (2::rat) ^ lb"
    unfolding rb using B(2) by (metis of_nat_less_iff of_nat_numeral of_nat_power)
  have bpos: "(0::rat) < of_int b" using b by simp
  have il: "ilog2 q = (if 2 powi e \<le> q then e else e - 1)"
    by (simp add: ilog2_def ab e_def la_def lb_def)
  \<comment> \<open>\<open>2^(e-1) < q < 2^(e+1)\<close>\<close>
  have up: "q < 2 powi (e + 1)"
  proof -
    have "2 powi (e + 1) = (2::rat) ^ la / 2 ^ (lb - 1)"
    proof -
      have "e + 1 = int la - int (lb - 1)" using lb0 by (simp add: e_def)
      then show ?thesis by (simp add: power_int_diff)
    qed
    moreover have "of_int a / of_int b < (2::rat) ^ la / 2 ^ (lb - 1)"
      using A2 B1 bpos by (intro frac_less) (simp_all add: a less_imp_le)
    ultimately show ?thesis using q by simp
  qed
  have low: "2 powi (e - 1) \<le> q"
  proof -
    have "2 powi (e - 1) = (2::rat) ^ (la - 1) / 2 ^ lb"
    proof -
      have "e - 1 = int (la - 1) - int lb" using la0 by (simp add: e_def)
      then show ?thesis by (simp add: power_int_diff)
    qed
    moreover have "(2::rat) ^ (la - 1) / 2 ^ lb \<le> of_int a / of_int b"
      using A1 B2 bpos a by (intro frac_le) (simp_all add: less_imp_le)
    ultimately show ?thesis using q by simp
  qed
  show "2 powi (ilog2 q) \<le> q" using il low by simp
  show "q < 2 powi (ilog2 q + 1)"
    using il up by (cases "2 powi e \<le> q") (simp_all add: not_le)
qed

lemma pow2_less_iff: "(2::rat) powi m < 2 powi n \<longleftrightarrow> m < n"
proof
  assume "(2::rat) powi m < 2 powi n"
  show "m < n"
  proof (rule ccontr)
    assume "\<not> m < n"
    then have "n \<le> m" by simp
    then have "(2::rat) powi n \<le> 2 powi m" by (intro power_int_increasing) simp_all
    with \<open>(2::rat) powi m < 2 powi n\<close> show False by simp
  qed
next
  assume "m < n"
  then show "(2::rat) powi m < 2 powi n" by (intro power_int_strict_increasing) simp_all
qed

lemma pow2_le_iff: "(2::rat) powi m \<le> 2 powi n \<longleftrightarrow> m \<le> n"
  using pow2_less_iff [of n m] by (simp add: not_less [symmetric])

lemma ilog2_unique:
  assumes "2 powi e \<le> q" and "q < 2 powi (e + 1)"
  shows "ilog2 q = e"
proof -
  have q: "0 < q" using assms(1) by (meson less_le_trans zero_less_numeral zero_less_power_int)
  note b = ilog2_bounds [OF q]
  have "(2::rat) powi e < 2 powi (ilog2 q + 1)" using assms(1) b(2) by simp
  then have "e < ilog2 q + 1" by (simp add: pow2_less_iff)
  moreover have "(2::rat) powi (ilog2 q) < 2 powi (e + 1)" using assms(2) b(1) by simp
  then have "ilog2 q < e + 1" by (simp add: pow2_less_iff)
  ultimately show ?thesis by simp
qed

lemma rhe_near: "\<bar>q - of_int (rhe q)\<bar> \<le> 1 / 2"
proof -
  have "of_int \<lfloor>q\<rfloor> \<le> q" "q < of_int \<lfloor>q\<rfloor> + 1" by linarith+
  then show ?thesis by (auto simp: rhe_def Let_def abs_le_iff)
qed

lemma rhe_unique:
  assumes "\<bar>q - of_int n\<bar> < 1 / 2"
  shows "rhe q = n"
proof -
  have "\<bar>(of_int n :: rat) - of_int (rhe q)\<bar> < 1"
    using assms rhe_near [of q] by linarith
  then have "\<bar>(of_int (n - rhe q) :: rat)\<bar> < 1" by simp
  then have "\<bar>n - rhe q\<bar> < 1" by (metis of_int_abs of_int_less_1_iff)
  then show ?thesis by simp
qed

lemma rhe_of_int [simp]: "rhe (of_int n) = n"
  by (rule rhe_unique) simp

lemma rhe_mono: "p \<le> q \<Longrightarrow> rhe p \<le> rhe q"
proof (rule ccontr)
  assume pq: "p \<le> q" and "\<not> rhe p \<le> rhe q"
  then have lt: "rhe q + 1 \<le> rhe p" by simp
  then have r: "(of_int (rhe q) :: rat) + 1 \<le> of_int (rhe p)"
    by (metis of_int_1 of_int_add of_int_le_iff)
  from rhe_near [of p] rhe_near [of q] pq r
  have p: "p = of_int (rhe p) - 1 / 2" and q: "q = of_int (rhe q) + 1 / 2"
    and e: "(of_int (rhe p) :: rat) = of_int (rhe q) + 1" by linarith+
  from e have e': "rhe p = rhe q + 1" by (metis of_int_1 of_int_add of_int_eq_iff)
  have pq_eq: "p = q" using p q e by simp
  then show False using e' by simp
qed

lemma fl_pos_eqI:
  assumes "2 powi e \<le> q" and "q < 2 powi (e + 1)" and "- 1022 \<le> e"
    and "\<bar>q / 2 powi (e - 52) - of_int n\<bar> < 1 / 2"
  shows "fl_pos q = of_int n * 2 powi (e - 52)"
proof -
  have e: "ilog2 q = e" using assms(1,2) by (rule ilog2_unique)
  have q: "q \<noteq> 0" using assms(1) by (metis less_le_trans less_irrefl zero_less_numeral zero_less_power_int)
  have Q: "quantum q = 2 powi (e - 52)" using assms(3) by (simp add: quantum_def e max_def)
  show ?thesis using q assms(4) by (simp add: fl_pos_def Q rhe_unique)
qed

lemma fl_pos_near:
  assumes "0 < q"
  shows "\<bar>q - fl_pos q\<bar> \<le> quantum q / 2"
proof -
  have Q: "0 < quantum q" by (simp add: quantum_def)
  have "\<bar>q / quantum q - of_int (rhe (q / quantum q))\<bar> \<le> 1 / 2" by (rule rhe_near)
  then have "\<bar>q / quantum q - of_int (rhe (q / quantum q))\<bar> * quantum q \<le> 1 / 2 * quantum q"
    using Q by (intro mult_right_mono) simp_all
  moreover have "\<bar>q / quantum q - of_int (rhe (q / quantum q))\<bar> * quantum q
      = \<bar>q - of_int (rhe (q / quantum q)) * quantum q\<bar>"
  proof -
    have "\<bar>q / quantum q - of_int (rhe (q / quantum q))\<bar> * quantum q
        = \<bar>(q / quantum q - of_int (rhe (q / quantum q))) * quantum q\<bar>"
      using Q by (simp add: abs_mult)
    also have "(q / quantum q - of_int (rhe (q / quantum q))) * quantum q
        = q - of_int (rhe (q / quantum q)) * quantum q"
      using Q by (simp add: field_simps)
    finally show ?thesis .
  qed
  ultimately show ?thesis using assms by (simp add: fl_pos_def)
qed

lemma pow2_split: "(2::rat) powi (a + b) = 2 powi a * 2 powi b"
  by (simp add: power_int_add)

lemma rhe_numeral [simp]: "rhe (numeral n) = numeral n"
  using rhe_of_int [of "numeral n"] by simp

lemma pow2_int: "0 \<le> e \<Longrightarrow> (2::rat) powi e = of_int (2 ^ nat e)"
  by (simp add: power_int_nonneg_exp)

text \<open>A decimal with two fractional digits survives the round trip through its nearest
  float: rounding that float to two decimals and converting back gives the same float.\<close>

lemma round2_stable:
  fixes k :: int
  assumes "0 \<le> k"
  defines "r \<equiv> fl_pos (of_int k / 100)"
  shows "fl_pos (of_int (rhe (r * 100)) / 100) = r"
proof (cases "k = 0")
  case True
  have "rhe 0 = 0" using rhe_of_int [of 0] by simp
  with True show ?thesis by (simp add: r_def fl_pos_def)
next
  case False
  define d :: rat where "d = of_int k / 100"
  have d: "0 < d" using assms(1) False by (simp add: d_def)
  define e where "e = ilog2 d"
  note b = ilog2_bounds [OF d, folded e_def]
  define Q where "Q = quantum d"
  have Qpos: "0 < Q" by (simp add: Q_def quantum_def)
  define m where "m = rhe (d / Q)"
  have r: "r = of_int m * Q" using d by (simp add: r_def fl_pos_def d_def [symmetric] Q_def m_def)
  have near: "\<bar>d - r\<bar> \<le> Q / 2"
    using fl_pos_near [OF d] by (simp add: r_def d_def Q_def)
  show ?thesis
  proof (cases "e \<le> 45")
    case True
    then have "max e (- 1022) - 52 \<le> - 7" by simp
    then have "(2::rat) powi (max e (- 1022) - 52) \<le> 2 powi (- 7)"
      by (intro power_int_increasing) simp_all
    then have "Q \<le> 1 / 128" by (simp add: Q_def quantum_def e_def)
    with near have "\<bar>d - r\<bar> \<le> 1 / 256" by simp
    moreover have "\<bar>r * 100 - of_int k\<bar> = 100 * \<bar>d - r\<bar>"
    proof -
      have "r * 100 - of_int k = 100 * (r - d)" by (simp add: d_def)
      then have "\<bar>r * 100 - of_int k\<bar> = \<bar>100 * (r - d)\<bar>" by (rule arg_cong)
      also have "\<dots> = 100 * \<bar>r - d\<bar>" by (subst abs_mult) simp
      also have "\<dots> = 100 * \<bar>d - r\<bar>" by (simp only: abs_minus_commute)
      finally show ?thesis .
    qed
    ultimately have "\<bar>r * 100 - of_int k\<bar> < 1 / 2" by simp
    then have "rhe (r * 100) = k" by (rule rhe_unique)
    then show ?thesis by (simp add: r_def)
  next
    case False
    then have e46: "46 \<le> e" by simp
    then have Q: "Q = 2 powi (e - 52)" by (simp add: Q_def quantum_def e_def max_def)
    have "- 6 \<le> e - 52" using e46 by simp
    then have "(2::rat) powi (- 6) \<le> 2 powi (e - 52)" by (intro power_int_increasing) simp_all
    then have Q64: "1 / 64 \<le> Q" by (simp add: Q)
    have pe: "(2::rat) powi e = 2 ^ 52 * Q"
      using pow2_split [of 52 "e - 52"] by (simp add: Q)
    have pe1: "(2::rat) powi (e + 1) = 2 ^ 53 * Q"
      using pow2_split [of 53 "e - 52"] by (simp add: Q add.commute)
    have dlo: "2 ^ 52 * Q \<le> d" using b(1) by (simp only: pe)
    have dhi: "d < 2 ^ 53 * Q" using b(2) by (simp only: pe1)
    have lo: "of_int (2 ^ 52) \<le> d / Q" using dlo Qpos by (simp add: field_simps)
    have hi: "d / Q \<le> of_int (2 ^ 53)" using dhi Qpos by (simp add: field_simps)
    have m_lo: "2 ^ 52 \<le> m" using rhe_mono [OF lo] by (simp add: m_def)
    have m_hi: "m \<le> 2 ^ 53" using rhe_mono [OF hi] by (simp add: m_def)
    define k' where "k' = rhe (r * 100)"
    define d' :: rat where "d' = of_int k' / 100"
    have near': "\<bar>d' - r\<bar> \<le> 1 / 200"
    proof -
      have "d' - r = (of_int k' - r * 100) / 100" by (simp add: d'_def diff_divide_distrib)
      then have "\<bar>d' - r\<bar> = \<bar>(of_int k' - r * 100) / 100\<bar>" by (rule arg_cong)
      also have "\<dots> = \<bar>of_int k' - r * 100\<bar> / 100" by (subst abs_divide) simp
      also have "\<dots> = \<bar>r * 100 - of_int k'\<bar> / 100" by (simp only: abs_minus_commute)
      finally have "\<bar>d' - r\<bar> = \<bar>r * 100 - of_int k'\<bar> / 100" .
      moreover have "\<bar>r * 100 - of_int k'\<bar> \<le> 1 / 2" unfolding k'_def by (rule rhe_near)
      ultimately show ?thesis by simp
    qed
    have goal: "?thesis = (fl_pos d' = r)" by (simp add: d'_def k'_def)
    have e0: "0 \<le> e" using e46 by simp
    show ?thesis
    proof (cases "m = 2 ^ 53")
      case True
      then have r1: "r = 2 powi (e + 1)" by (simp add: r pe1)
      have "(2::rat) powi (e + 1) = of_int (2 ^ nat (e + 1))" using e0 by (intro pow2_int) simp
      then have "r * 100 = of_int (2 ^ nat (e + 1) * 100)" by (simp add: r1)
      then have "k' = 2 ^ nat (e + 1) * 100" unfolding k'_def by (simp only: rhe_of_int)
      then have d'r: "d' = r"
        using \<open>(2::rat) powi (e + 1) = of_int (2 ^ nat (e + 1))\<close> by (simp add: d'_def r1)
      have Q2: "(2::rat) powi (e - 51) = 2 * Q"
        using pow2_split [of 1 "e - 52"] by (simp add: Q)
      have "fl_pos r = of_int (2 ^ 52) * 2 powi (e + 1 - 52)"
      proof (rule fl_pos_eqI)
        show "2 powi (e + 1) \<le> r" by (simp add: r1)
        show "r < 2 powi (e + 1 + 1)" unfolding r1 by (simp add: pow2_less_iff)
        show "- 1022 \<le> e + 1" using e0 by simp
        show "\<bar>r / 2 powi (e + 1 - 52) - of_int (2 ^ 52)\<bar> < 1 / 2"
          using Qpos by (simp add: Q2 r True)
      qed
      also have "\<dots> = r" by (simp add: Q2 r True)
      finally show ?thesis by (simp add: goal d'r)
    next
      case False
      with m_hi have m53: "m \<le> 2 ^ 53 - 1" by simp
      have rlo: "2 powi e \<le> r"
      proof -
        have "(of_int (2 ^ 52) :: rat) \<le> of_int m" using m_lo by (simp only: of_int_le_iff)
        then have "of_int (2 ^ 52) * Q \<le> of_int m * Q" using Qpos by (intro mult_right_mono) simp_all
        then show ?thesis by (simp add: pe r)
      qed
      have rhi: "r \<le> 2 powi (e + 1) - Q"
      proof -
        have "(of_int m :: rat) \<le> of_int (2 ^ 53 - 1)" using m53 by (simp only: of_int_le_iff)
        then have "of_int m * Q \<le> of_int (2 ^ 53 - 1) * Q" using Qpos by (intro mult_right_mono) simp_all
        then have "r \<le> 2 ^ 53 * Q - Q" by (simp add: r algebra_simps)
        then show ?thesis by (simp only: pe1)
      qed
      have pi: "(2::rat) powi e = of_int (2 ^ nat e)" using e0 by (rule pow2_int)
      have "of_int (2 ^ nat e * 100) \<le> r * 100" using rlo by (simp add: pi)
      from rhe_mono [OF this] have "2 ^ nat e * 100 \<le> k'" unfolding k'_def by (simp only: rhe_of_int)
      then have "(of_int (2 ^ nat e * 100) :: rat) \<le> of_int k'" by (simp only: of_int_le_iff)
      then have d'lo: "2 powi e \<le> d'" by (simp add: d'_def pi)
      have "d' - r \<le> 1 / 200" using near' abs_ge_self [of "d' - r"] by (rule_tac order_trans)
      then have d'hi: "d' < 2 powi (e + 1)" using rhi Q64 by linarith
      have "fl_pos d' = of_int m * 2 powi (e - 52)"
      proof (rule fl_pos_eqI [OF d'lo d'hi])
        show "- 1022 \<le> e" using e0 by simp
        have A: "d' / Q - of_int m = (d' - r) / Q" using Qpos by (simp add: r field_simps)
        have B: "\<bar>(d' - r) / Q\<bar> \<le> (1 / 200) / (1 / 64)"
          unfolding abs_divide using near' Q64 Qpos by (intro frac_le) simp_all
        have "(1 / 200) / (1 / 64) < (1 / 2 :: rat)" by simp
        with B have "\<bar>(d' - r) / Q\<bar> < 1 / 2" by (rule le_less_trans)
        then have "\<bar>d' / Q - of_int m\<bar> < 1 / 2" by (simp only: A)
        then show "\<bar>d' / 2 powi (e - 52) - of_int m\<bar> < 1 / 2" by (simp only: Q)
      qed
      then have "fl_pos d' = r" by (simp only: r Q)
      then show ?thesis unfolding d'_def k'_def .
    qed
  qed
qed

section \<open>Rounding to two decimals\<close>

lemma rhe_nonneg: "0 \<le> q \<Longrightarrow> 0 \<le> rhe q"
  using rhe_mono [of 0 q] rhe_of_int [of 0] by simp

lemma fl_pos_nonneg: "0 \<le> q \<Longrightarrow> 0 \<le> fl_pos q"
proof -
  assume q: "0 \<le> q"
  have "0 \<le> quantum q" by (simp add: quantum_def)
  then have "0 \<le> q / quantum q" using q by simp
  then have "0 \<le> rhe (q / quantum q)" by (rule rhe_nonneg)
  then show ?thesis using \<open>0 \<le> quantum q\<close> by (simp add: fl_pos_def)
qed

lemma py_round2_idem:
  assumes "py_round2 x = Inr y"
  shows "py_round2 y = Inr y"
proof (cases x)
  case (Finite q)
  define k where "k = rhe (\<bar>q\<bar> * 100)"
  define r where "r = fl_pos (of_int k / 100)"
  have k: "0 \<le> k" unfolding k_def by (rule rhe_nonneg) simp
  then have r0: "0 \<le> r" unfolding r_def by (intro fl_pos_nonneg) simp
  from assms Finite have fin: "\<not> 2 ^ 1024 \<le> r" and y: "y = signed (q < 0) r"
    by (auto simp: py_round2_def Let_def k_def r_def split: if_splits)
  have st: "fl_pos (of_int (rhe (r * 100)) / 100) = r"
    unfolding r_def using k by (rule round2_stable)
  show ?thesis
  proof (cases "r = 0")
    case True
    have "rhe 0 = 0" using rhe_of_int [of 0] by simp
    then show ?thesis using True y
      by (cases "q < 0") (simp_all add: signed_def py_round2_def fl_pos_def)
  next
    case False
    with r0 have rp: "0 < r" by simp
    show ?thesis
    proof (cases "q < 0")
      case True
      then have "y = Finite (- r)" using y fin False by (simp add: signed_def)
      then show ?thesis using st fin rp False by (simp add: py_round2_def signed_def)
    next
      case False
      then have "y = Finite r" using y fin \<open>r \<noteq> 0\<close> by (simp add: signed_def)
      then show ?thesis using st fin rp \<open>r \<noteq> 0\<close> by (simp add: py_round2_def signed_def)
    qed
  qed
qed (use assms in \<open>simp_all add: py_round2_def\<close>)

lemma round_weight_idem:
  assumes "round_weight v = Some y"
  shows "round_weight (PFloat y) = Some y"
proof -
  from assms obtain x where "py_round2 x = Inr y"
    by (auto simp: round_weight_def split: if_splits sum.splits)
  then have "py_round2 y = Inr y" by (rule py_round2_idem)
  then show ?thesis by (simp add: round_weight_def py_float_def)
qed

lemma round_weight_opt_float: "round_weight (opt_float (round_weight v)) = round_weight v"
  by (cases "round_weight v") (simp_all add: opt_float_def round_weight_idem, simp add: round_weight_def)

lemma round_cbm_eq: "round_cbm = round_weight"
  by (rule ext) (simp add: round_cbm_def round_weight_def)

lemma is_space_upper_chr: "is_space (upper_chr c) = is_space c"
  by (auto simp: is_space_def upper_chr_def lower_letters_def upper_letters_def)

lemma upper_chr_idem: "upper_chr (upper_chr c) = upper_chr c"
  by (auto simp: upper_chr_def lower_letters_def upper_letters_def)

lemma dropWhile_idem: "dropWhile P (dropWhile P s) = dropWhile P s"
  by (induction s) simp_all

lemma strip_upper: "strip (upper s) = upper (strip s)"
proof -
  have comp: "is_space \<circ> upper_chr = is_space"
    by (rule ext) (simp add: is_space_upper_chr)
  show ?thesis
    by (simp add: strip_def upper_def dropWhile_map comp rev_map)
qed

lemma dropWhile_fixed: "xs = [] \<or> \<not> P (hd xs) \<Longrightarrow> dropWhile P xs = xs"
  by (cases xs) auto

lemma strip_idem: "strip (strip s) = strip s"
proof -
  define u where "u = dropWhile is_space s"
  define t where "t = dropWhile is_space (rev u)"
  have u: "u = [] \<or> \<not> is_space (hd u)" unfolding u_def by (metis hd_dropWhile)
  have "rev u = takeWhile is_space (rev u) @ t" by (simp add: t_def)
  then have "rev (rev u) = rev (takeWhile is_space (rev u) @ t)" by (rule arg_cong)
  then have dec: "u = rev t @ rev (takeWhile is_space (rev u))" by simp
  have "rev t = [] \<or> \<not> is_space (hd (rev t))"
  proof (cases "rev t")
    case Nil
    then show ?thesis by simp
  next
    case (Cons a as)
    with dec have "u = a # as @ rev (takeWhile is_space (rev u))" by simp
    then have "u \<noteq> []" "hd u = a" by (metis list.distinct(1), metis list.sel(1))
    with u Cons show ?thesis by simp
  qed
  then have a: "dropWhile is_space (rev t) = rev t" by (rule dropWhile_fixed)
  have b: "dropWhile is_space t = t" unfolding t_def by (rule dropWhile_idem)
  have "strip s = rev t" by (simp add: strip_def t_def u_def)
  moreover have "strip (rev t) = rev t" by (simp add: strip_def a b)
  ultimately show ?thesis by simp
qed

lemma norm_incoterm_idem: "norm_incoterm (norm_incoterm v) = norm_incoterm v"
proof (cases v)
  case None
  then show ?thesis by (simp add: norm_incoterm_def)
next
  case (Some t)
  have "upper (strip (upper (strip t))) = upper (upper (strip (strip t)))"
    by (simp only: strip_upper)
  also have "\<dots> = upper (strip t)"
    by (simp add: strip_idem upper_def upper_chr_idem comp_def)
  finally have "upper (strip (upper (strip t))) = upper (strip t)" .
  then show ?thesis using Some by (simp add: norm_incoterm_def Let_def)
qed

lemma fl_pos_12_345: "fl_pos (12345 / 1000) = 6949617174986097 / 562949953421312"
  using fl_pos_eqI [of 3 "12345 / 1000" 6949617174986097] by simp

lemma fl_pos_12_35: "fl_pos (1235 / 100) = 6952431924753203 / 562949953421312"
  using fl_pos_eqI [of 3 "1235 / 100" 6952431924753203] by simp

lemma rhe_12_345: "rhe (6949617174986097 / 562949953421312 * 100) = 1235"
  by (rule rhe_unique) simp

lemma py_round2_12_345:
  "py_round2 (Finite (6949617174986097 / 562949953421312))
     = Inr (Finite (6952431924753203 / 562949953421312))"
  using fl_pos_12_35 rhe_12_345 by (simp add: py_round2_def signed_def Let_def)

lemma round_weight_12_345:
  "round_weight (PFloat (Finite (6949617174986097 / 562949953421312)))
     = Some (Finite (6952431924753203 / 562949953421312))"
  by (simp add: round_weight_def py_float_def py_round2_12_345)

text \<open>
  C9. The float written 12.345 is the binary64 number 6949617174986097 / 2^49 and the float
  written 12.35 is 6952431924753203 / 2^49; \<open>round_weight\<close> maps the former to the latter,
  maps \<open>None\<close> to null, and maps the string "abc", which \<open>float\<close> rejects, to null.
\<close>

theorem round_weight_examples:
  "fl (12345 / 1000) = Finite (6949617174986097 / 562949953421312)
   \<and> fl (1235 / 100) = Finite (6952431924753203 / 562949953421312)
   \<and> round_weight (PFloat (Finite (6949617174986097 / 562949953421312)))
       = Some (Finite (6952431924753203 / 562949953421312))
   \<and> round_weight PNone = None
   \<and> py_float (PStr ''abc'') = Inl ValueError
   \<and> round_weight (PStr ''abc'') = None"
proof (intro conjI)
  show "fl (12345 / 1000) = Finite (6949617174986097 / 562949953421312)"
    using fl_pos_12_345 by (simp add: fl_def signed_def)
  show "fl (1235 / 100) = Finite (6952431924753203 / 562949953421312)"
    using fl_pos_12_35 by (simp add: fl_def signed_def)
  show "round_weight (PFloat (Finite (6949617174986097 / 562949953421312)))
       = Some (Finite (6952431924753203 / 562949953421312))"
    by (rule round_weight_12_345)
  show "round_weight PNone = None" by (simp add: round_weight_def)
  show "py_float (PStr ''abc'') = Inl ValueError" by code_simp
  show "round_weight (PStr ''abc'') = None" by code_simp
qed

text \<open>
  C8. Normalizing the finalized record again gives the same record: whenever a raw record
  is accepted with result \<open>r\<close>, the keyword arguments made from \<open>r\<close> are accepted with
  result \<open>r\<close>.
\<close>

theorem normalizer_idempotent:
  assumes "ExtractionResult raw = Inr r"
  shows "ExtractionResult (dict_of r) = Inr r"
proof -
  from assms obtain i where i: "raw_id raw = Some i"
    by (cases "raw_id raw") (simp_all add: ExtractionResult_def)
  with assms have r: "r = \<lparr>id' = i,
               product_line = raw_product_line raw,
               origin_port_code = raw_origin_port_code raw,
               origin_port_name = raw_origin_port_name raw,
               destination_port_code = raw_destination_port_code raw,
               destination_port_name = raw_destination_port_name raw,
               incoterm = norm_incoterm (raw_incoterm raw),
               cargo_weight_kg = round_weight (raw_cargo_weight_kg raw),
               cargo_cbm = round_cbm (raw_cargo_cbm raw),
               is_dangerous = (case raw_is_dangerous raw of None \<Rightarrow> False | Some b \<Rightarrow> b)\<rparr>"
    by (simp add: ExtractionResult_def)
  show ?thesis
    unfolding r
    by (simp add: ExtractionResult_def dict_of_def norm_incoterm_idem round_cbm_eq
        round_weight_opt_float)
qed

theorem normalizer_idempotent_witness:
  "ExtractionResult
     \<lparr>raw_id = Some ''EMAIL_001'', raw_product_line = Some ''pl_sea_import_lcl'',
      raw_origin_port_code = None, raw_origin_port_name = None,
      raw_destination_port_code = Some ''INNSA'', raw_destination_port_name = Some ''Nhava Sheva'',
      raw_incoterm = Some '' cif '',
      raw_cargo_weight_kg = PFloat (Finite (6949617174986097 / 562949953421312)),
      raw_cargo_cbm = PStr ''abc'', raw_is_dangerous = None\<rparr>
   = Inr \<lparr>id' = ''EMAIL_001'', product_line = Some ''pl_sea_import_lcl'',
      origin_port_code = None, origin_port_name = None,
      destination_port_code = Some ''INNSA'', destination_port_name = Some ''Nhava Sheva'',
      incoterm = Some ''CIF'',
      cargo_weight_kg = Some (Finite (6952431924753203 / 562949953421312)),
      cargo_cbm = None, is_dangerous = False\<rparr>
   \<and> ExtractionResult (dict_of
      \<lparr>id' = ''EMAIL_001'', product_line = Some ''pl_sea_import_lcl'',
      origin_port_code = None, origin_port_name = None,
      destination_port_code = Some ''INNSA'', destination_port_name = Some ''Nhava Sheva'',
      incoterm = Some ''CIF'',
      cargo_weight_kg = Some (Finite (6952431924753203 / 562949953421312)),
      cargo_cbm = None, is_dangerous = False\<rparr>)
   = Inr \<lparr>id' = ''EMAIL_001'', product_line = Some ''pl_sea_import_lcl'',
      origin_port_code = None, origin_port_name = None,
      destination_port_code = Some ''INNSA'', destination_port_name = Some ''Nhava Sheva'',
      incoterm = Some ''CIF'',
      cargo_weight_kg = Some (Finite (6952431924753203 / 562949953421312)),
      cargo_cbm = None, is_dangerous = False\<rparr>"
proof -
  have a: "norm_incoterm (Some '' cif '') = Some ''CIF''" by code_simp
  have b: "round_cbm (PStr ''abc'') = None" by code_simp
  have h: "ExtractionResult
     \<lparr>raw_id = Some ''EMAIL_001'', raw_product_line = Some ''pl_sea_import_lcl'',
      raw_origin_port_code = None, raw_origin_port_name = None,
      raw_destination_port_code = Some ''INNSA'', raw_destination_port_name = Some ''Nhava Sheva'',
      raw_incoterm = Some '' cif '',
      raw_cargo_weight_kg = PFloat (Finite (6949617174986097 / 562949953421312)),
      raw_cargo_cbm = PStr ''abc'', raw_is_dangerous = None\<rparr>
   = Inr \<lparr>id' = ''EMAIL_001'', product_line = Some ''pl_sea_import_lcl'',
      origin_port_code = None, origin_port_name = None,
      destination_port_code = Some ''INNSA'', destination_port_name = Some ''Nhava Sheva'',
      incoterm = Some ''CIF'',
      cargo_weight_kg = Some (Finite (6952431924753203 / 562949953421312)),
      cargo_cbm = None, is_dangerous = False\<rparr>"
    by (simp add: ExtractionResult_def a b round_weight_12_345)
  from h normalizer_idempotent [OF h] show ?thesis by (rule conjI)
qed

section \<open>Evaluating floats that are small integers\<close>

lemma fl_pos_int:
  assumes "0 < n" and "n < 2 ^ 53"
  shows "fl_pos (of_int n) = of_int n"
proof -
  define q :: rat where "q = of_int n"
  have q: "0 < q" using assms(1) by (simp add: q_def)
  define e where "e = ilog2 q"
  note b = ilog2_bounds [OF q, folded e_def]
  have "(1::rat) \<le> q" using assms(1) by (simp add: q_def)
  then have "(2::rat) powi 0 < 2 powi (e + 1)" using b(2) by simp
  then have "0 < e + 1" by (simp only: pow2_less_iff)
  then have e0: "0 \<le> e" by simp
  have "q < 2 powi 53" using assms(2) by (simp add: q_def)
  then have "(2::rat) powi e < 2 powi 53" using b(1) by simp
  then have "e < 53" by (simp only: pow2_less_iff)
  then have e52: "e \<le> 52" by simp
  have Q: "quantum q = 2 powi (e - 52)" using e0 by (simp add: quantum_def e_def max_def)
  have inv: "(2::rat) powi (e - 52) * 2 powi (52 - e) = 1"
    using pow2_split [of "e - 52" "52 - e"] by simp
  have pos: "(0::rat) < 2 powi (e - 52)" by simp
  have div: "q / 2 powi (e - 52) = q * 2 powi (52 - e)"
    using inv pos by (simp add: field_simps)
  have p2: "(2::rat) powi (52 - e) = of_int (2 ^ nat (52 - e))" using e52 by (intro pow2_int) simp
  have "q * 2 powi (52 - e) = of_int n * of_int (2 ^ nat (52 - e))" by (simp only: p2 q_def)
  also have "\<dots> = of_int (n * 2 ^ nat (52 - e))" by (simp only: of_int_mult)
  finally have qi: "q / 2 powi (e - 52) = of_int (n * 2 ^ nat (52 - e))" by (simp only: div)
  then have r: "rhe (q / quantum q) = n * 2 ^ nat (52 - e)" by (simp only: Q rhe_of_int)
  have "fl_pos q = of_int (rhe (q / quantum q)) * quantum q" using q by (simp add: fl_pos_def)
  also have "\<dots> = q / 2 powi (e - 52) * 2 powi (e - 52)" by (simp only: r) (simp only: Q qi)
  also have "\<dots> = q" using pos by simp
  finally show ?thesis by (simp only: q_def)
qed

lemma signed_int:
  assumes "0 < n" and "n < 2 ^ 53"
  shows "signed False (fl_pos (of_int n)) = Finite (of_int n)"
proof -
  have "(of_int n :: rat) < of_int (2 ^ 53)" using assms(2) by (simp only: of_int_less_iff)
  also have "\<dots> < 2 ^ 1024" by simp
  finally have "\<not> (2 ^ 1024 \<le> (of_int n :: rat))" by simp
  then show ?thesis using assms by (simp add: fl_pos_int signed_def)
qed

lemmas float_literal_defs =
  group_float_def float_of_str_def float_strip_def is_c_space_def split_sign_def lower_def
  lower_chr_def
  upper_letters_def lower_letters_def is_digit_def digits_def parse_exponent_def
  nat_of_digits_def digit_val_def

lemma group_float_0: "group_float ''0'' = Inr (Finite 0)"
  by (simp add: float_literal_defs signed_def fl_pos_def)

lemma group_float_5: "group_float ''5'' = Inr (Finite 5)"
  using signed_int [of 5] by (simp add: float_literal_defs)

lemma parse_weight_body_zero: "parse_weight_kg (Some ''Net weight: 0 kg'') = Inr (Some (Finite 0))"
proof -
  have "search_group True num_rx (unit_tail kg_units) ''Net weight: 0 kg'' = Some ''0''"
    by code_simp
  then show ?thesis by (simp add: parse_weight_kg_def group_float_0)
qed

lemma parse_weight_subject_five: "parse_weight_kg (Some ''RFQ 5 kg'') = Inr (Some (Finite 5))"
proof -
  have "search_group True num_rx (unit_tail kg_units) ''RFQ 5 kg'' = Some ''5''"
    by code_simp
  then show ?thesis by (simp add: parse_weight_kg_def group_float_5)
qed

lemma parse_weight_subject_none: "parse_weight_kg (Some ''RFQ'') = Inr None"
proof -
  have "search_group True num_rx (unit_tail kg_units) ''RFQ'' = None"
    "search_group True num_rx (unit_tail tonne_units) ''RFQ'' = None"
    "search_group True num_rx (unit_tail lb_units) ''RFQ'' = None"
    "search False zero_rx ''RFQ'' = False"
    by code_simp+
  then show ?thesis by (simp add: parse_weight_kg_def)
qed

lemma parse_cbm_none:
  "parse_cbm (Some ''Net weight: 0 kg'') = Inr None"
  "parse_cbm (Some ''RFQ 5 kg'') = Inr None"
  "parse_cbm (Some ''RFQ'') = Inr None"
proof -
  have "search_group True num_rx (unit_tail cbm_units) ''Net weight: 0 kg'' = None"
    "search_group True num_rx (unit_tail cbm_units) ''RFQ 5 kg'' = None"
    "search_group True num_rx (unit_tail cbm_units) ''RFQ'' = None"
    by code_simp+
  then show "parse_cbm (Some ''Net weight: 0 kg'') = Inr None"
    "parse_cbm (Some ''RFQ 5 kg'') = Inr None"
    "parse_cbm (Some ''RFQ'') = Inr None"
    by (simp_all add: parse_cbm_def)
qed

text \<open>
  C4 fails on the code. The body "Net weight: 0 kg" yields the parsed value 0.0, an
  explicit zero; \<open>parse_weight_kg(body) or parse_weight_kg(subj)\<close> treats 0.0 as false, so the
  subject's 5.0 is taken, and with a subject that holds no weight the result is null.
\<close>

theorem rule_extract_zero_weight_lost:
  "parse_weight_kg (Some ''Net weight: 0 kg'') = Inr (Some (Finite 0))
   \<and> parse_weight_kg (Some ''RFQ 5 kg'') = Inr (Some (Finite 5))
   \<and> map_sum id raw_cargo_weight_kg
        (rule_extract VALID_INCOTERMS (\<lambda>text. Inr []) Map.empty
           \<lparr>email_id = Some ''E1'', subject = Text ''RFQ 5 kg'', body = Text ''Net weight: 0 kg''\<rparr>)
       = Inr (PFloat (Finite 5))
   \<and> map_sum id raw_cargo_weight_kg
        (rule_extract VALID_INCOTERMS (\<lambda>text. Inr []) Map.empty
           \<lparr>email_id = Some ''E2'', subject = Text ''RFQ'', body = Text ''Net weight: 0 kg''\<rparr>)
       = Inr PNone"
  by (simp add: rule_extract_def get_default_def or_float_def truthy_def is_zero_def opt_float_def
      parse_weight_body_zero parse_weight_subject_five parse_weight_subject_none parse_cbm_none
      Let_def)

section \<open>Weight parser: the unit patterns and the zero pattern\<close>








section \<open>Weight parser: the matched number is a numeral that \<open>float\<close> accepts\<close>

















section \<open>Weight parser: order of the units and examples\<close>



















section \<open>Batch driver: one record per email\<close>

lemma rule_extract_id:
  assumes "rule_extract order find_ports code_to_name e = Inr raw"
  shows "raw_id raw = email_id e"
  using assms
  by (auto simp: rule_extract_def Let_def split: option.splits sum.splits)


lemma ExtractionResult_id:
  assumes "ExtractionResult raw = Inr v"
  shows "raw_id raw = Some (id' v)"
  using assms by (auto simp: ExtractionResult_def split: option.splits)



lemma try_extract_mock_id:
  assumes "try_extract True order find_ports code_to_name call_llm json_loads e = Inr r"
  shows "email_id e = Some (id' r)"
proof -
  from assms obtain raw where raw: "rule_extract order find_ports code_to_name e = Inr raw"
    and v: "ExtractionResult raw = Inr r"
    by (auto simp: try_extract_def extract_raw_def split: sum.splits)
  from raw have "raw_id raw = email_id e" by (rule rule_extract_id)
  moreover from v have "raw_id raw = Some (id' r)" by (rule ExtractionResult_id)
  ultimately show ?thesis by simp
qed

text \<open>In a run with \<open>--mock\<close>, an email without an id ends the run: its extraction is
  rejected by the model, and so is the record of the handler.\<close>

lemma main_loop_abort:
  assumes "\<exists>e \<in> set es. email_id e = None"
  shows "\<exists>err. main_loop True order find_ports code_to_name call_llm json_loads es outputs = Inl err"
  using assms
proof (induction es arbitrary: outputs)
  case Nil
  then show ?case by simp
next
  case (Cons e es)
  show ?case
  proof (cases "process_email True order find_ports code_to_name call_llm json_loads e")
    case (Inl err)
    then show ?thesis by simp
  next
    case (Inr r)
    have "email_id e \<noteq> None"
    proof
      assume n: "email_id e = None"
      have "ExtractionResult (null_record None) = Inl ValidationError"
        by (simp add: ExtractionResult_def null_record_def)
      with Inr n have "try_extract True order find_ports code_to_name call_llm json_loads e = Inr r"
        by (auto simp: process_email_def split: sum.splits)
      then have "email_id e = Some (id' r)" by (rule try_extract_mock_id)
      with n show False by simp
    qed
    with Cons.prems have "\<exists>e \<in> set es. email_id e = None" by auto
    from Cons.IH [OF this] show ?thesis by (simp add: Inr)
  qed
qed

text \<open>In a run with \<open>--mock\<close>, a batch that holds an email without an id gives no output.\<close>

lemma main_abort_without_id:
  assumes "\<exists>e \<in> set emails. email_id e = None"
  shows "\<exists>err. main True order find_ports code_to_name call_llm json_loads emails = Inl err"
  using assms unfolding main_def by (rule main_loop_abort)





end
